theory Spec2Isabelle
  imports Complex_Main
begin

section \<open>Kinematics of a quadruped leg: the model\<close>

text \<open>
  The source is \<^verbatim>\<open>utilities/spot_micro_kinematics.py\<close>. Python floats are read as real
  numbers: the geometry is stated over \<open>\<real>\<close>, rounding, overflow, NaN and the sign of
  zero are outside the model. numpy arrays are lists (a vector) and lists of rows (a
  matrix). Exceptions are values of type \<open>py_error\<close>, and a function that can raise
  returns \<open>py_error + 'a\<close>.
\<close>

subsection \<open>The Python and numpy library functions the source calls\<close>

datatype py_error = ZeroDivisionError | ValueError

type_synonym vec = "real list"
type_synonym mat = "real list list"

text \<open>\<^verbatim>\<open>math.sqrt\<close> raises \<^verbatim>\<open>ValueError: math domain error\<close> below zero.\<close>

definition py_sqrt :: "real \<Rightarrow> py_error + real" where
  "py_sqrt x = (if x < 0 then Inl ValueError else Inr (sqrt x))"

text \<open>
  \<^verbatim>\<open>math.atan2(y, x)\<close>: the angle of the point \<open>(x, y)\<close> in \<open>(-\<pi>, \<pi>]\<close>, and \<open>0\<close> at
  the origin. It never raises.
\<close>

definition atan2 :: "real \<Rightarrow> real \<Rightarrow> real" where
  "atan2 y x =
     (if 0 < x then arctan (y / x)
      else if x < 0 then (if 0 \<le> y then arctan (y / x) + pi else arctan (y / x) - pi)
      else if 0 < y then pi / 2
      else if y < 0 then - (pi / 2)
      else 0)"

definition dot :: "vec \<Rightarrow> vec \<Rightarrow> real" where
  "dot xs ys = sum_list (map2 (*) xs ys)"

definition ncols :: "mat \<Rightarrow> nat" where
  "ncols m = (case m of [] \<Rightarrow> 0 | r # _ \<Rightarrow> length r)"

text \<open>\<^verbatim>\<open>m.transpose()\<close> of a two-dimensional array.\<close>

definition transpose_np :: "mat \<Rightarrow> mat" where
  "transpose_np m = map (\<lambda>j. map (\<lambda>r. r ! j) m) [0..<ncols m]"

text \<open>\<^verbatim>\<open>a @ b\<close> of two-dimensional arrays, and \<^verbatim>\<open>m.dot(v)\<close> of a matrix and a vector.\<close>

definition matmul :: "mat \<Rightarrow> mat \<Rightarrow> mat" where
  "matmul a b = map (\<lambda>r. map (dot r) (transpose_np b)) a"

definition matvec :: "mat \<Rightarrow> vec \<Rightarrow> vec" where
  "matvec m v = map (\<lambda>r. dot r v) m"

text \<open>
  \<^verbatim>\<open>np.block([[r, t], [bottom]])\<close>: the columns of \<open>t\<close> to the right of \<open>r\<close>, and the
  row \<open>bottom\<close> below.
\<close>

definition np_block :: "mat \<Rightarrow> mat \<Rightarrow> vec \<Rightarrow> mat" where
  "np_block r t bottom = map2 (@) r t @ [bottom]"

subsection \<open>The module \<^verbatim>\<open>transformations\<close>\<close>

text \<open>
  Modelled from the spec: \<^verbatim>\<open>transformations.roty\<close>, the rotation matrix of a right-handed
  rotation about the y axis, in the standard trigonometric form. The module
  \<^verbatim>\<open>transformations\<close> is imported by the source and is not part of it.
\<close>

definition roty :: "real \<Rightarrow> mat" where
  "roty ang = [[cos ang, 0, sin ang],
               [0, 1, 0],
               [- sin ang, 0, cos ang]]"

text \<open>
  Modelled from the spec: \<^verbatim>\<open>transformations.rotz\<close>, the rotation matrix of a right-handed
  rotation about the z axis, in the standard trigonometric form.
\<close>

definition rotz :: "real \<Rightarrow> mat" where
  "rotz ang = [[cos ang, - sin ang, 0],
               [sin ang, cos ang, 0],
               [0, 0, 1]]"

text \<open>
  Modelled from the spec: \<^verbatim>\<open>transformations.ht_inverse\<close>, the inverse of a rigid
  transform by the orthonormal-inverse identity: the rotation block transposed, and the
  translation \<open>- R\<^sup>T t\<close>.
\<close>

definition ht_inverse :: "mat \<Rightarrow> mat" where
  "ht_inverse ht =
     (let r = map (take 3) (take 3 ht);
          t = map (\<lambda>row. row ! 3) (take 3 ht);
          rt = transpose_np r
      in np_block rt (map (\<lambda>x. [- x]) (matvec rt t)) [0, 0, 0, 1])"

subsection \<open>Leg-mount frames\<close>

definition t_rightback :: "mat \<Rightarrow> real \<Rightarrow> real \<Rightarrow> mat" where
  "t_rightback t_m l w =
     (let temp_homog_transf = np_block (roty (pi / 2)) [[- l / 2], [0], [w / 2]] [0, 0, 0, 1]
      in matmul t_m temp_homog_transf)"

definition t_rightfront :: "mat \<Rightarrow> real \<Rightarrow> real \<Rightarrow> mat" where
  "t_rightfront t_m l w =
     (let temp_homog_transf = np_block (roty (pi / 2)) [[l / 2], [0], [w / 2]] [0, 0, 0, 1]
      in matmul t_m temp_homog_transf)"

definition t_leftfront :: "mat \<Rightarrow> real \<Rightarrow> real \<Rightarrow> mat" where
  "t_leftfront t_m l w =
     (let temp_homog_transf = np_block (roty (- pi / 2)) [[l / 2], [0], [- w / 2]] [0, 0, 0, 1]
      in matmul t_m temp_homog_transf)"

definition t_leftback :: "mat \<Rightarrow> real \<Rightarrow> real \<Rightarrow> mat" where
  "t_leftback t_m l w =
     (let temp_homog_transf = np_block (roty (- pi / 2)) [[- l / 2], [0], [- w / 2]] [0, 0, 0, 1]
      in matmul t_m temp_homog_transf)"

subsection \<open>The joint transforms and forward kinematics\<close>

definition t_0_to_1 :: "real \<Rightarrow> real \<Rightarrow> mat" where
  "t_0_to_1 theta1 l1 =
     np_block (rotz theta1) [[- l1 * cos theta1], [- l1 * sin theta1], [0]] [0, 0, 0, 1]"

definition t_1_to_2 :: mat where
  "t_1_to_2 = [[0, 0, -1, 0],
               [-1, 0, 0, 0],
               [0, 1, 0, 0],
               [0, 0, 0, 1]]"

definition t_2_to_3 :: "real \<Rightarrow> real \<Rightarrow> mat" where
  "t_2_to_3 theta2 l2 =
     np_block (rotz theta2) [[l2 * cos theta2], [l2 * sin theta2], [0]] [0, 0, 0, 1]"

definition t_3_to_4 :: "real \<Rightarrow> real \<Rightarrow> mat" where
  "t_3_to_4 theta3 l3 =
     np_block (rotz theta3) [[l3 * cos theta3], [l3 * sin theta3], [0]] [0, 0, 0, 1]"

text \<open>\<^verbatim>\<open>@\<close> associates to the left.\<close>

definition t_0_to_4 :: "real \<Rightarrow> real \<Rightarrow> real \<Rightarrow> real \<Rightarrow> real \<Rightarrow> real \<Rightarrow> mat" where
  "t_0_to_4 theta1 theta2 theta3 l1 l2 l3 =
     matmul (matmul (matmul (t_0_to_1 theta1 l1) t_1_to_2) (t_2_to_3 theta2 l2))
            (t_3_to_4 theta3 l3)"

subsection \<open>Inverse kinematics\<close>

text \<open>The supporting variable \<open>D\<close> of \<^verbatim>\<open>ikine\<close>, where its divisor is not zero.\<close>

definition ikine_D :: "real \<Rightarrow> real \<Rightarrow> real \<Rightarrow> real \<Rightarrow> real \<Rightarrow> real \<Rightarrow> real" where
  "ikine_D x4 y4 z4 l1 l2 l3 =
     (x4\<^sup>2 + y4\<^sup>2 + z4\<^sup>2 - l1\<^sup>2 - l2\<^sup>2 - l3\<^sup>2) / (2 * l2 * l3)"

text \<open>
  The statements of \<^verbatim>\<open>ikine\<close> in their order: the division raises when \<open>2 l2 l3\<close> is
  zero, the first square root when \<open>1 - D\<^sup>2\<close> is negative, the second when
  \<open>x4\<^sup>2 + y4\<^sup>2 - l1\<^sup>2\<close> is negative. The square root in \<open>q1\<close> has the argument of the
  one in \<open>q2\<close>, which did not raise.
\<close>

definition ikine ::
  "real \<Rightarrow> real \<Rightarrow> real \<Rightarrow> real \<Rightarrow> real \<Rightarrow> real \<Rightarrow> bool \<Rightarrow> py_error + (real \<times> real \<times> real)" where
  "ikine x4 y4 z4 l1 l2 l3 legs12 =
     (if 2 * l2 * l3 = 0 then Inl ZeroDivisionError
      else
        let D = ikine_D x4 y4 z4 l1 l2 l3 in
        case py_sqrt (1 - D\<^sup>2) of
          Inl e \<Rightarrow> Inl e
        | Inr sd \<Rightarrow>
            let q3 = (if legs12 then atan2 sd D else atan2 (- sd) D) in
            (case py_sqrt (x4\<^sup>2 + y4\<^sup>2 - l1\<^sup>2) of
               Inl e \<Rightarrow> Inl e
             | Inr s \<Rightarrow>
                 let q2 = atan2 z4 s - atan2 (l3 * sin q3) (l2 + l3 * cos q3);
                     q1 = atan2 y4 x4 + atan2 s (- l1)
                 in Inr (q1, q2, q3)))"

subsection \<open>Foot targets in the leg frames\<close>

type_synonym point = "real \<times> real \<times> real"

text \<open>
  \<^verbatim>\<open>get_leg_delta_coords\<close> builds the four leg frames (the left-front name bound to
  \<^verbatim>\<open>t_leftback\<close> and the left-back name to \<^verbatim>\<open>t_leftfront\<close>), and returns the product of
  the inverted right-back frame and the homogeneous right-back target: one vector of four
  numbers.
\<close>

definition get_leg_delta_coords :: "mat \<Rightarrow> point \<times> point \<times> point \<times> point \<Rightarrow> real \<Rightarrow> real \<Rightarrow> vec" where
  "get_leg_delta_coords ht_body p4_coords l w =
     (let ht_rb_leg = t_rightback ht_body l w;
          ht_rf_leg = t_rightfront ht_body l w;
          ht_lf_leg = t_leftback ht_body l w;
          ht_lb_leg = t_leftfront ht_body l w;
          rb_foot_p4_global_coords =
            [fst (fst p4_coords), fst (snd (fst p4_coords)), snd (snd (fst p4_coords)), 1];
          ht_rb_leg_inv = ht_inverse ht_rb_leg;
          rb_p4_in_leg_coord_sys = matvec ht_rb_leg_inv rb_foot_p4_global_coords
      in rb_p4_in_leg_coord_sys)"

subsection \<open>Reading a homogeneous transform\<close>

definition rotation :: "mat \<Rightarrow> mat" where
  "rotation m = map (take 3) (take 3 m)"

definition translation :: "mat \<Rightarrow> vec" where
  "translation m = map (\<lambda>r. r ! 3) (take 3 m)"

definition identity3 :: mat where
  "identity3 = [[1, 0, 0], [0, 1, 0], [0, 0, 1]]"

definition identity4 :: mat where
  "identity4 = [[1, 0, 0, 0], [0, 1, 0, 0], [0, 0, 1, 0], [0, 0, 0, 1]]"

definition is_shape :: "nat \<Rightarrow> nat \<Rightarrow> mat \<Rightarrow> bool" where
  "is_shape n k m = (length m = n \<and> list_all (\<lambda>r. length r = k) m)"

definition det3 :: "mat \<Rightarrow> real" where
  "det3 m =
     m ! 0 ! 0 * (m ! 1 ! 1 * m ! 2 ! 2 - m ! 1 ! 2 * m ! 2 ! 1)
     - m ! 0 ! 1 * (m ! 1 ! 0 * m ! 2 ! 2 - m ! 1 ! 2 * m ! 2 ! 0)
     + m ! 0 ! 2 * (m ! 1 ! 0 * m ! 2 ! 1 - m ! 1 ! 1 * m ! 2 ! 0)"

text \<open>
  A rigid transform: a four by four matrix whose rotation block is orthonormal with
  determinant one, and whose last row is \<open>(0, 0, 0, 1)\<close>.
\<close>

definition rigid :: "mat \<Rightarrow> bool" where
  "rigid m =
     (is_shape 4 4 m
      \<and> matmul (transpose_np (rotation m)) (rotation m) = identity3
      \<and> matmul (rotation m) (transpose_np (rotation m)) = identity3
      \<and> det3 (rotation m) = 1
      \<and> m ! 3 = [0, 0, 0, 1])"

section \<open>The arc tangent of two arguments\<close>

lemma atan2_range: "- pi < atan2 y x \<and> atan2 y x \<le> pi"
proof -
  have b: "- (pi / 2) < arctan (y / x)" "arctan (y / x) < pi / 2"
    by (rule arctan_lbound, rule arctan_ubound)
  consider "0 < x" | "x < 0" "0 \<le> y" | "x < 0" "y < 0" | "x = 0"
    by linarith
  then show ?thesis
  proof cases
    case 1
    then have "atan2 y x = arctan (y / x)" by (simp add: atan2_def)
    with b show ?thesis using pi_gt_zero by linarith
  next
    case 2
    then have "y / x \<le> 0" by (simp add: divide_nonneg_neg)
    then have "arctan (y / x) \<le> 0" by (simp add: arctan_le_zero_iff)
    moreover from 2 have "atan2 y x = arctan (y / x) + pi" by (simp add: atan2_def)
    ultimately show ?thesis using b pi_gt_zero by linarith
  next
    case 3
    then have "0 < y / x" by (simp add: divide_neg_neg)
    then have "0 < arctan (y / x)" by (simp add: zero_less_arctan_iff)
    moreover from 3 have "atan2 y x = arctan (y / x) - pi" by (simp add: atan2_def)
    ultimately show ?thesis using b pi_gt_zero by linarith
  next
    case 4
    then have "atan2 y x = pi / 2 \<or> atan2 y x = - (pi / 2) \<or> atan2 y x = 0"
      by (simp add: atan2_def)
    moreover have "- pi < pi / 2" "pi / 2 \<le> pi" "- pi < - (pi / 2)" "- (pi / 2) \<le> pi"
      "- pi < 0" "0 \<le> pi"
      using pi_gt_zero by linarith+
    ultimately show ?thesis by metis
  qed
qed

lemma sqrt_sum_squares_factor:
  assumes "x \<noteq> 0"
  shows "sqrt (x\<^sup>2 + y\<^sup>2) = \<bar>x\<bar> * sqrt (1 + (y / x)\<^sup>2)"
proof -
  have "x\<^sup>2 + y\<^sup>2 = x\<^sup>2 * (1 + (y / x)\<^sup>2)"
    using assms by (simp add: field_simps power2_eq_square)
  then show ?thesis by (simp add: real_sqrt_mult)
qed

lemma atan2_polar:
  "sqrt (x\<^sup>2 + y\<^sup>2) * cos (atan2 y x) = x \<and> sqrt (x\<^sup>2 + y\<^sup>2) * sin (atan2 y x) = y"
proof (cases "x = 0")
  case True
  then show ?thesis by (simp add: atan2_def)
next
  case False
  define t where "t = y / x"
  have pos: "0 < sqrt (1 + t\<^sup>2)"
    by (simp add: add_pos_nonneg)
  have r: "sqrt (x\<^sup>2 + y\<^sup>2) = \<bar>x\<bar> * sqrt (1 + t\<^sup>2)"
    unfolding t_def by (rule sqrt_sum_squares_factor [OF False])
  have c: "sqrt (1 + t\<^sup>2) * cos (arctan t) = 1"
    using pos by (simp add: cos_arctan)
  have s: "sqrt (1 + t\<^sup>2) * sin (arctan t) = t"
    using pos by (simp add: sin_arctan)
  have yt: "x * t = y"
    using False by (simp add: t_def)
  have cx: "\<bar>x\<bar> * sqrt (1 + t\<^sup>2) * cos (arctan t) = \<bar>x\<bar>"
    using c by (simp add: mult.assoc)
  have sx: "\<bar>x\<bar> * sqrt (1 + t\<^sup>2) * sin (arctan t) = \<bar>x\<bar> * t"
    using s by (simp add: mult.assoc)
  show ?thesis
  proof (cases "0 < x")
    case True
    then show ?thesis
      using cx sx yt by (simp add: atan2_def r t_def [symmetric])
  next
    case neg: False
    with False have n: "x < 0" by simp
    then show ?thesis
      using cx sx yt by (simp add: atan2_def r t_def [symmetric] cos_diff sin_diff cos_add sin_add)
  qed
qed

lemma angle_unique:
  assumes "sin u = sin t" "cos u = cos t" "- pi < u" "u \<le> pi" "- pi < t" "t \<le> pi"
  shows "u = t"
proof -
  from assms(1,2) obtain k :: int where k: "u = t + 2 * pi * real_of_int k"
    using sin_cos_eq_iff [of u t] by blast
  have "\<bar>u - t\<bar> < 2 * pi" using assms(3-6) by linarith
  then have "\<bar>2 * pi * real_of_int k\<bar> < 2 * pi" using k by simp
  then have "2 * pi * \<bar>real_of_int k\<bar> < 2 * pi * 1"
    using pi_gt_zero by (simp add: abs_mult)
  then have "\<bar>real_of_int k\<bar> < 1"
    using pi_gt_zero by (simp only: mult_less_cancel_left_pos [of "2 * pi"])
  then have "k = 0" by linarith
  with k show ?thesis by simp
qed

lemma atan2_of_polar:
  assumes "0 < r" "- pi < t" "t \<le> pi"
  shows "atan2 (r * sin t) (r * cos t) = t"
proof -
  let ?u = "atan2 (r * sin t) (r * cos t)"
  have "(r * cos t)\<^sup>2 + (r * sin t)\<^sup>2 = r\<^sup>2 * ((cos t)\<^sup>2 + (sin t)\<^sup>2)"
    by (simp only: power_mult_distrib distrib_left)
  also have "\<dots> = r\<^sup>2" by simp
  finally have "sqrt ((r * cos t)\<^sup>2 + (r * sin t)\<^sup>2) = sqrt (r\<^sup>2)" by (rule arg_cong)
  moreover have "sqrt (r\<^sup>2) = r"
    using assms(1) by simp
  ultimately have rr: "sqrt ((r * cos t)\<^sup>2 + (r * sin t)\<^sup>2) = r"
    by (rule trans)
  have p: "r * cos ?u = r * cos t" "r * sin ?u = r * sin t"
    using atan2_polar [of "r * cos t" "r * sin t"] unfolding rr by blast+
  have c: "cos ?u = cos t"
    using p(1) assms(1) by simp
  have s: "sin ?u = sin t"
    using p(2) assms(1) by simp
  have lo: "- pi < ?u" and hi: "?u \<le> pi"
    using atan2_range [of "r * sin t" "r * cos t"] by blast+
  show ?thesis
    by (rule angle_unique [OF s c lo hi assms(2) assms(3)])
qed

section \<open>Planar geometry of the leg\<close>

lemma atan2_unit_circle:
  assumes "D\<^sup>2 \<le> 1" "e = sqrt (1 - D\<^sup>2) \<or> e = - sqrt (1 - D\<^sup>2)"
  shows "cos (atan2 e D) = D" and "sin (atan2 e D) = e"
proof -
  have nn: "0 \<le> 1 - D\<^sup>2" using assms(1) by simp
  have "e\<^sup>2 = 1 - D\<^sup>2"
    using assms(2) nn by auto
  then have "D\<^sup>2 + e\<^sup>2 = 1" by simp
  then have "sqrt (D\<^sup>2 + e\<^sup>2) = 1" by simp
  with atan2_polar [of D e] show "cos (atan2 e D) = D" and "sin (atan2 e D) = e"
    by simp_all
qed

lemma two_link:
  assumes c3: "cos q3 = D"
    and law: "2 * l2 * l3 * D = s\<^sup>2 + z\<^sup>2 - l2\<^sup>2 - l3\<^sup>2"
    and q2: "q2 = atan2 z s - atan2 (l3 * sin q3) (l2 + l3 * cos q3)"
  shows "l2 * cos q2 + l3 * cos (q2 + q3) = s"
    and "l2 * sin q2 + l3 * sin (q2 + q3) = z"
proof -
  define u where "u = l2 + l3 * cos q3"
  define v where "v = l3 * sin q3"
  define psi where "psi = atan2 v u"
  define beta where "beta = atan2 z s"
  define r where "r = sqrt (u\<^sup>2 + v\<^sup>2)"
  have "u\<^sup>2 + v\<^sup>2 = l2\<^sup>2 + 2 * l2 * l3 * cos q3 + l3\<^sup>2 * ((cos q3)\<^sup>2 + (sin q3)\<^sup>2)"
    unfolding u_def v_def by (simp only: power2_eq_square) (simp only: algebra_simps)
  also have "\<dots> = l2\<^sup>2 + 2 * l2 * l3 * D + l3\<^sup>2"
    unfolding c3 [symmetric] by simp
  also have "\<dots> = s\<^sup>2 + z\<^sup>2"
    using law by simp
  finally have uv: "u\<^sup>2 + v\<^sup>2 = s\<^sup>2 + z\<^sup>2" .
  then have r': "sqrt (s\<^sup>2 + z\<^sup>2) = r"
    unfolding r_def by simp
  have pu: "r * cos psi = u" and pv: "r * sin psi = v"
    using atan2_polar [of u v] unfolding r_def psi_def by blast+
  have ps: "r * cos beta = s" and pz: "r * sin beta = z"
    using atan2_polar [of s z] unfolding r' beta_def by blast+
  have q2b: "q2 + psi = beta"
    unfolding q2 psi_def beta_def u_def v_def by simp
  have "l2 * cos q2 + l3 * cos (q2 + q3) = u * cos q2 - v * sin q2"
    unfolding u_def v_def by (simp add: cos_add algebra_simps)
  also have "\<dots> = r * cos psi * cos q2 - r * sin psi * sin q2"
    by (simp only: pu pv)
  also have "\<dots> = r * cos (q2 + psi)"
    by (simp add: cos_add algebra_simps)
  finally show "l2 * cos q2 + l3 * cos (q2 + q3) = s"
    by (simp only: q2b ps)
  have "l2 * sin q2 + l3 * sin (q2 + q3) = u * sin q2 + v * cos q2"
    unfolding u_def v_def by (simp add: sin_add algebra_simps)
  also have "\<dots> = r * cos psi * sin q2 + r * sin psi * cos q2"
    by (simp only: pu pv)
  also have "\<dots> = r * sin (q2 + psi)"
    by (simp add: sin_add algebra_simps)
  finally show "l2 * sin q2 + l3 * sin (q2 + q3) = z"
    by (simp only: q2b pz)
qed

lemma hip_link:
  assumes s2: "s\<^sup>2 = x\<^sup>2 + y\<^sup>2 - l1\<^sup>2"
    and q1: "q1 = atan2 y x + atan2 s (- l1)"
  shows "s * sin q1 - l1 * cos q1 = x"
    and "- s * cos q1 - l1 * sin q1 = y"
proof -
  define phi where "phi = atan2 s (- l1)"
  define alpha where "alpha = atan2 y x"
  define rho where "rho = sqrt (x\<^sup>2 + y\<^sup>2)"
  have "(- l1)\<^sup>2 + s\<^sup>2 = x\<^sup>2 + y\<^sup>2"
    using s2 by simp
  then have rho': "sqrt ((- l1)\<^sup>2 + s\<^sup>2) = rho"
    unfolding rho_def by (simp only:)
  have pl: "rho * cos phi = - l1" and ps: "rho * sin phi = s"
    using atan2_polar [of "- l1" s] unfolding rho' phi_def by blast+
  have px: "rho * cos alpha = x" and py: "rho * sin alpha = y"
    using atan2_polar [of x y] unfolding rho_def alpha_def by blast+
  have qa: "q1 - phi = alpha"
    unfolding q1 phi_def alpha_def by simp
  have "s * sin q1 - l1 * cos q1 = rho * sin phi * sin q1 + rho * cos phi * cos q1"
    by (simp only: pl ps)
  also have "\<dots> = rho * cos (q1 - phi)"
    by (simp add: cos_diff algebra_simps)
  finally show "s * sin q1 - l1 * cos q1 = x"
    by (simp only: qa px)
  have "- s * cos q1 - l1 * sin q1 = rho * cos phi * sin q1 - rho * sin phi * cos q1"
    by (simp only: pl ps)
  also have "\<dots> = rho * sin (q1 - phi)"
    by (simp add: sin_diff algebra_simps)
  finally show "- s * cos q1 - l1 * sin q1 = y"
    by (simp only: qa py)
qed

section \<open>Evaluating the matrices\<close>

lemmas mat_defs = np_block_def matmul_def transpose_np_def ncols_def dot_def matvec_def
  rotz_def roty_def rotation_def translation_def

lemma t_0_to_4_translation:
  "translation (t_0_to_4 q1 q2 q3 l1 l2 l3) =
     [(l2 * cos q2 + l3 * cos (q2 + q3)) * sin q1 - l1 * cos q1,
      - (l2 * cos q2 + l3 * cos (q2 + q3)) * cos q1 - l1 * sin q1,
      l2 * sin q2 + l3 * sin (q2 + q3)]"
  by (simp add: t_0_to_4_def t_0_to_1_def t_1_to_2_def t_2_to_3_def t_3_to_4_def mat_defs
      cos_add sin_add algebra_simps)

section \<open>When the inverse solver returns\<close>

lemma ikine_returns:
  assumes "l2 * l3 \<noteq> 0" "(ikine_D x4 y4 z4 l1 l2 l3)\<^sup>2 \<le> 1" "l1\<^sup>2 \<le> x4\<^sup>2 + y4\<^sup>2"
  shows "ikine x4 y4 z4 l1 l2 l3 legs12 =
    (let D = ikine_D x4 y4 z4 l1 l2 l3;
         q3 = atan2 (if legs12 then sqrt (1 - D\<^sup>2) else - sqrt (1 - D\<^sup>2)) D;
         s = sqrt (x4\<^sup>2 + y4\<^sup>2 - l1\<^sup>2)
     in Inr (atan2 y4 x4 + atan2 s (- l1),
             atan2 z4 s - atan2 (l3 * sin q3) (l2 + l3 * cos q3),
             q3))"
  using assms by (simp add: ikine_def py_sqrt_def Let_def)

lemma ikine_InrD:
  assumes "ikine x4 y4 z4 l1 l2 l3 legs12 = Inr q"
  shows "l2 * l3 \<noteq> 0" "(ikine_D x4 y4 z4 l1 l2 l3)\<^sup>2 \<le> 1" "l1\<^sup>2 \<le> x4\<^sup>2 + y4\<^sup>2"
  using assms by (auto simp add: ikine_def py_sqrt_def Let_def split: if_splits)

lemma ikine_forward:
  assumes ik: "ikine x4 y4 z4 l1 l2 l3 legs12 = Inr (q1, q2, q3)"
  shows "translation (t_0_to_4 q1 q2 q3 l1 l2 l3) = [x4, y4, z4]"
proof -
  define D where "D = ikine_D x4 y4 z4 l1 l2 l3"
  define s where "s = sqrt (x4\<^sup>2 + y4\<^sup>2 - l1\<^sup>2)"
  define e where "e = (if legs12 then sqrt (1 - D\<^sup>2) else - sqrt (1 - D\<^sup>2))"
  have nz: "l2 * l3 \<noteq> 0" and D1: "D\<^sup>2 \<le> 1" and r1: "l1\<^sup>2 \<le> x4\<^sup>2 + y4\<^sup>2"
    using ikine_InrD [OF ik] unfolding D_def by blast+
  have "ikine x4 y4 z4 l1 l2 l3 legs12 =
      Inr (atan2 y4 x4 + atan2 s (- l1),
           atan2 z4 s - atan2 (l3 * sin (atan2 e D)) (l2 + l3 * cos (atan2 e D)),
           atan2 e D)"
    using ikine_returns [of _ _ _ _ _ _ legs12, OF nz D1 [unfolded D_def] r1]
    unfolding D_def s_def e_def Let_def .
  then have "Inr (q1, q2, q3) =
      (Inr (atan2 y4 x4 + atan2 s (- l1),
           atan2 z4 s - atan2 (l3 * sin (atan2 e D)) (l2 + l3 * cos (atan2 e D)),
           atan2 e D) :: py_error + real \<times> real \<times> real)"
    unfolding ik .
  then have "q1 = atan2 y4 x4 + atan2 s (- l1)
      \<and> q2 = atan2 z4 s - atan2 (l3 * sin (atan2 e D)) (l2 + l3 * cos (atan2 e D))
      \<and> q3 = atan2 e D"
    by (simp only: sum.inject prod.inject)
  then have q3: "q3 = atan2 e D"
    and q2': "q2 = atan2 z4 s - atan2 (l3 * sin (atan2 e D)) (l2 + l3 * cos (atan2 e D))"
    and q1: "q1 = atan2 y4 x4 + atan2 s (- l1)"
    by blast+
  have q2: "q2 = atan2 z4 s - atan2 (l3 * sin q3) (l2 + l3 * cos q3)"
    unfolding q3 by (rule q2')
  have "e = sqrt (1 - D\<^sup>2) \<or> e = - sqrt (1 - D\<^sup>2)"
    unfolding e_def by simp
  then have c3: "cos q3 = D"
    unfolding q3 by (rule atan2_unit_circle(1) [OF D1])
  have s2: "s\<^sup>2 = x4\<^sup>2 + y4\<^sup>2 - l1\<^sup>2"
    unfolding s_def using r1 by simp
  have "2 * l2 * l3 * D = x4\<^sup>2 + y4\<^sup>2 + z4\<^sup>2 - l1\<^sup>2 - l2\<^sup>2 - l3\<^sup>2"
    unfolding D_def ikine_D_def using nz by simp
  then have law: "2 * l2 * l3 * D = s\<^sup>2 + z4\<^sup>2 - l2\<^sup>2 - l3\<^sup>2"
    unfolding s2 by simp
  have a: "l2 * cos q2 + l3 * cos (q2 + q3) = s"
    and b: "l2 * sin q2 + l3 * sin (q2 + q3) = z4"
    by (rule two_link [OF c3 law q2])+
  have x: "s * sin q1 - l1 * cos q1 = x4" and y: "- s * cos q1 - l1 * sin q1 = y4"
    by (rule hip_link [OF s2 q1])+
  show ?thesis
    unfolding t_0_to_4_translation a b using x y by simp
qed

section \<open>Recovering the joint angles from the foot point\<close>

lemma cos_pos_interval:
  assumes "- (3 * pi / 2) \<le> x" "x \<le> 3 * pi / 2" "0 < cos x"
  shows "- (pi / 2) < x \<and> x < pi / 2"
proof -
  have hi: "x < pi / 2"
  proof (rule ccontr)
    assume "\<not> x < pi / 2"
    then have "- (pi / 2) \<le> x - pi" "x - pi \<le> pi / 2"
      using assms(2) by simp_all
    then have "0 \<le> cos (x - pi)" by (rule cos_ge_zero)
    moreover have "cos (x - pi) = - cos x" by (simp add: cos_diff)
    ultimately show False using assms(3) by simp
  qed
  have lo: "- (pi / 2) < x"
  proof (rule ccontr)
    assume "\<not> - (pi / 2) < x"
    then have "- (pi / 2) \<le> x + pi" "x + pi \<le> pi / 2"
      using assms(1) by simp_all
    then have "0 \<le> cos (x + pi)" by (rule cos_ge_zero)
    moreover have "cos (x + pi) = - cos x" by (simp add: cos_add)
    ultimately show False using assms(3) by simp
  qed
  from lo hi show ?thesis ..
qed

lemma sin_neg_interval:
  assumes "- (3 * pi / 2) < x" "x < 0" "sin x < 0"
  shows "- pi < x"
proof (rule ccontr)
  assume "\<not> - pi < x"
  then have "0 \<le> - x - pi" "- x - pi \<le> pi"
    using assms(1) pi_gt_zero by simp_all
  then have "0 \<le> sin (- x - pi)" by (rule sin_ge_zero)
  moreover have "sin (- x - pi) = sin x" by (simp add: sin_diff)
  ultimately show False using assms(3) by simp
qed

lemma atan2_second_quadrant:
  assumes "x < 0" "0 < y"
  shows "pi / 2 < atan2 y x \<and> atan2 y x < pi"
proof -
  have "y / x < 0" using assms by (simp add: divide_pos_neg)
  then have "arctan (y / x) < 0" by (simp add: arctan_less_zero_iff)
  moreover have "- (pi / 2) < arctan (y / x)" by (rule arctan_lbound)
  moreover have "atan2 y x = arctan (y / x) + pi"
    using assms by (simp add: atan2_def)
  ultimately show ?thesis by linarith
qed

lemma foot_radius_alg:
  fixes a l s c :: real
  shows "(a * s - l * c)\<^sup>2 + (- a * c - l * s)\<^sup>2 = (a\<^sup>2 + l\<^sup>2) * (s\<^sup>2 + c\<^sup>2)"
  by (simp add: power2_eq_square algebra_simps)

lemma foot_radius:
  fixes a l1 q1 :: real
  shows "(a * sin q1 - l1 * cos q1)\<^sup>2 + (- a * cos q1 - l1 * sin q1)\<^sup>2 = a\<^sup>2 + l1\<^sup>2"
  by (simp only: foot_radius_alg sin_cos_squared_add mult_1_right)

lemma cosine_law_alg:
  fixes l2 l3 c2 s2 c s :: real
  shows "(l2 * c2 + l3 * c)\<^sup>2 + (l2 * s2 + l3 * s)\<^sup>2
      = l2\<^sup>2 * (c2\<^sup>2 + s2\<^sup>2) + l3\<^sup>2 * (c\<^sup>2 + s\<^sup>2) + 2 * l2 * l3 * (c * c2 + s * s2)"
  by (simp add: power2_eq_square algebra_simps)

lemma cosine_law:
  fixes l2 l3 q2 q3 :: real
  shows "(l2 * cos q2 + l3 * cos (q2 + q3))\<^sup>2 + (l2 * sin q2 + l3 * sin (q2 + q3))\<^sup>2
     = l2\<^sup>2 + l3\<^sup>2 + 2 * l2 * l3 * cos q3"
proof -
  have "cos q3 = cos ((q2 + q3) - q2)" by simp
  also have "\<dots> = cos (q2 + q3) * cos q2 + sin (q2 + q3) * sin q2"
    by (rule cos_diff)
  finally have c3: "cos (q2 + q3) * cos q2 + sin (q2 + q3) * sin q2 = cos q3" by (rule sym)
  show ?thesis
    by (simp only: cosine_law_alg c3 sin_cos_squared_add2 mult_1_right)
qed

lemma knee_recovered:
  assumes "if legs12 then 0 \<le> q3 \<and> q3 \<le> pi else - pi < q3 \<and> q3 \<le> 0"
  shows "atan2 (if legs12 then sqrt (1 - (cos q3)\<^sup>2) else - sqrt (1 - (cos q3)\<^sup>2)) (cos q3) = q3"
proof -
  have abs: "sqrt (1 - (cos q3)\<^sup>2) = \<bar>sin q3\<bar>"
    by (simp add: sin_squared_eq [symmetric])
  have rng: "- pi < q3" "q3 \<le> pi"
    using assms pi_gt_zero by (cases legs12; simp; linarith)+
  have e: "(if legs12 then sqrt (1 - (cos q3)\<^sup>2) else - sqrt (1 - (cos q3)\<^sup>2)) = sin q3"
  proof (cases legs12)
    case True
    with assms have "0 \<le> sin q3" by (simp add: sin_ge_zero)
    with True show ?thesis by (simp add: abs)
  next
    case False
    with assms have "0 \<le> - q3" "- q3 \<le> pi" by simp_all
    then have "0 \<le> sin (- q3)" by (rule sin_ge_zero)
    then have "sin q3 \<le> 0" by simp
    with False show ?thesis by (simp add: abs)
  qed
  have "atan2 (1 * sin q3) (1 * cos q3) = q3"
    by (rule atan2_of_polar [OF _ rng]) simp
  then show ?thesis unfolding e by simp
qed

lemma upper_leg_recovered:
  assumes q2: "- (pi / 2) \<le> q2" "q2 \<le> pi / 2"
    and a: "0 < l2 * cos q2 + l3 * cos (q2 + q3)"
  shows "atan2 (l2 * sin q2 + l3 * sin (q2 + q3)) (l2 * cos q2 + l3 * cos (q2 + q3))
       - atan2 (l3 * sin q3) (l2 + l3 * cos q3) = q2"
proof -
  define u where "u = l2 + l3 * cos q3"
  define v where "v = l3 * sin q3"
  define psi where "psi = atan2 v u"
  define r where "r = sqrt (u\<^sup>2 + v\<^sup>2)"
  have pu: "r * cos psi = u" and pv: "r * sin psi = v"
    using atan2_polar [of u v] unfolding r_def psi_def by blast+
  have "l2 * cos q2 + l3 * cos (q2 + q3) = u * cos q2 - v * sin q2"
    unfolding u_def v_def by (simp add: cos_add algebra_simps)
  also have "\<dots> = r * cos psi * cos q2 - r * sin psi * sin q2"
    by (simp only: pu pv)
  also have "\<dots> = r * cos (q2 + psi)"
    by (simp add: cos_add algebra_simps)
  finally have ea: "l2 * cos q2 + l3 * cos (q2 + q3) = r * cos (q2 + psi)" .
  have "l2 * sin q2 + l3 * sin (q2 + q3) = u * sin q2 + v * cos q2"
    unfolding u_def v_def by (simp add: sin_add algebra_simps)
  also have "\<dots> = r * cos psi * sin q2 + r * sin psi * cos q2"
    by (simp only: pu pv)
  also have "\<dots> = r * sin (q2 + psi)"
    by (simp add: sin_add algebra_simps)
  finally have eb: "l2 * sin q2 + l3 * sin (q2 + q3) = r * sin (q2 + psi)" .
  have r0: "0 \<le> r" unfolding r_def by simp
  have prod: "0 < r * cos (q2 + psi)" using a unfolding ea .
  have rpos: "0 < r"
  proof (rule ccontr)
    assume "\<not> 0 < r"
    with r0 have "r = 0" by simp
    with prod show False by simp
  qed
  have cpos: "0 < cos (q2 + psi)"
    using prod rpos by (simp add: zero_less_mult_iff)
  have "- pi < psi" "psi \<le> pi"
    using atan2_range [of v u] unfolding psi_def by blast+
  then have "- (3 * pi / 2) \<le> q2 + psi" "q2 + psi \<le> 3 * pi / 2"
    using q2 by linarith+
  then have "- (pi / 2) < q2 + psi \<and> q2 + psi < pi / 2"
    using cpos by (rule cos_pos_interval)
  then have "- pi < q2 + psi" "q2 + psi \<le> pi"
    using pi_gt_zero by linarith+
  then have "atan2 (r * sin (q2 + psi)) (r * cos (q2 + psi)) = q2 + psi"
    by (rule atan2_of_polar [OF rpos])
  then show ?thesis
    unfolding ea eb psi_def u_def v_def by simp
qed

lemma hip_recovered:
  assumes l1: "0 < l1" and a: "0 < a"
    and q1: "- (pi / 2) \<le> q1" "q1 \<le> pi / 2"
    and y: "- a * cos q1 - l1 * sin q1 < 0"
  shows "atan2 (- a * cos q1 - l1 * sin q1) (a * sin q1 - l1 * cos q1) + atan2 a (- l1) = q1"
proof -
  define phi where "phi = atan2 a (- l1)"
  define rho where "rho = sqrt ((- l1)\<^sup>2 + a\<^sup>2)"
  have pl: "rho * cos phi = - l1" and pa: "rho * sin phi = a"
    using atan2_polar [of "- l1" a] unfolding rho_def phi_def by blast+
  have "0 < (- l1)\<^sup>2 + a\<^sup>2"
    using a by (simp add: add_nonneg_pos)
  then have rpos: "0 < rho" unfolding rho_def by simp
  have phi: "pi / 2 < phi" "phi < pi"
    using atan2_second_quadrant [of "- l1" a] l1 a unfolding phi_def by simp_all
  have "a * sin q1 - l1 * cos q1 = rho * sin phi * sin q1 + rho * cos phi * cos q1"
    by (simp only: pl pa)
  also have "\<dots> = rho * cos (q1 - phi)"
    by (simp add: cos_diff algebra_simps)
  finally have ex: "a * sin q1 - l1 * cos q1 = rho * cos (q1 - phi)" .
  have "- a * cos q1 - l1 * sin q1 = rho * cos phi * sin q1 - rho * sin phi * cos q1"
    by (simp only: pl pa)
  also have "\<dots> = rho * sin (q1 - phi)"
    by (simp add: sin_diff algebra_simps)
  finally have ey: "- a * cos q1 - l1 * sin q1 = rho * sin (q1 - phi)" .
  have "rho * sin (q1 - phi) < 0" using y unfolding ey .
  then have sneg: "sin (q1 - phi) < 0"
    using rpos by (simp add: mult_less_0_iff)
  have "- (3 * pi / 2) < q1 - phi" "q1 - phi < 0"
    using q1 phi by linarith+
  then have lo: "- pi < q1 - phi"
    using sneg by (rule sin_neg_interval)
  have hi: "q1 - phi \<le> pi"
    using q1 phi pi_gt_zero by linarith
  have "atan2 (rho * sin (q1 - phi)) (rho * cos (q1 - phi)) = q1 - phi"
    by (rule atan2_of_polar [OF rpos lo hi])
  then show ?thesis
    unfolding ex ey phi_def by simp
qed

text \<open>
  Why the foot has to be below the mount frame: with the hip at \<open>-\<pi>/2\<close>, a straight leg
  and unit links, the foot is at \<open>(-2, 1, 0)\<close> and the hip angle that \<^verbatim>\<open>ikine\<close> returns
  is larger than \<open>\<pi>\<close>: the same direction, a turn further.
\<close>

lemma ikine_hip_angle_wraps:
  "translation (t_0_to_4 (- (pi / 2)) 0 0 1 1 1) = [- 2, 1, 0]
   \<and> ikine (- 2) 1 0 1 1 1 True = Inr (atan2 1 (- 2) + atan2 2 (- 1), 0, 0)
   \<and> pi < atan2 1 (- 2) + atan2 2 (- 1)"
proof -
  have tr: "translation (t_0_to_4 (- (pi / 2)) 0 0 1 1 1) = [- 2, 1, 0]"
    by (simp add: t_0_to_4_translation)
  have D: "ikine_D (- 2) 1 0 1 1 1 = 1"
    by (simp add: ikine_D_def)
  have z: "atan2 0 1 = 0" "atan2 0 2 = 0"
    by (simp_all add: atan2_def)
  have ik: "ikine (- 2) 1 0 1 1 1 True = Inr (atan2 1 (- 2) + atan2 2 (- 1), 0, 0)"
    by (simp add: ikine_def py_sqrt_def D z Let_def)
  have "pi / 2 < atan2 1 (- 2)" "pi / 2 < atan2 2 (- 1)"
    using atan2_second_quadrant [of "- 2" 1] atan2_second_quadrant [of "- 1" 2] by simp_all
  then have "pi < atan2 1 (- 2) + atan2 2 (- 1)" by linarith
  with tr ik show ?thesis by blast
qed

section \<open>Rigid transforms\<close>

lemma length4E:
  assumes "length xs = 4"
  obtains a b c d where "xs = [a, b, c, d]"
proof -
  from assms have "\<exists>a b c d. xs = [a, b, c, d]"
    by (simp add: eval_nat_numeral length_Suc_conv) blast
  with that show thesis by blast
qed

lemma shape44E:
  assumes "is_shape 4 4 m"
  obtains a0 a1 a2 a3 b0 b1 b2 b3 c0 c1 c2 c3 d0 d1 d2 d3 where
    "m = [[a0, a1, a2, a3], [b0, b1, b2, b3], [c0, c1, c2, c3], [d0, d1, d2, d3]]"
proof -
  from assms have "length m = 4" by (simp add: is_shape_def)
  then obtain r0 r1 r2 r3 where m: "m = [r0, r1, r2, r3]"
    by (rule length4E)
  from assms have l: "length r0 = 4" "length r1 = 4" "length r2 = 4" "length r3 = 4"
    unfolding is_shape_def m by simp_all
  obtain a0 a1 a2 a3 where r0: "r0 = [a0, a1, a2, a3]" using l(1) by (rule length4E)
  obtain b0 b1 b2 b3 where r1: "r1 = [b0, b1, b2, b3]" using l(2) by (rule length4E)
  obtain c0 c1 c2 c3 where r2: "r2 = [c0, c1, c2, c3]" using l(3) by (rule length4E)
  obtain d0 d1 d2 d3 where r3: "r3 = [d0, d1, d2, d3]" using l(4) by (rule length4E)
  show thesis
    by (rule that [of a0 a1 a2 a3 b0 b1 b2 b3 c0 c1 c2 c3 d0 d1 d2 d3])
       (simp only: m r0 r1 r2 r3)
qed

lemma rigid_joint:
  "rigid (np_block (rotz theta) [[x], [y], [z]] [0, 0, 0, 1])"
  by (simp add: rigid_def is_shape_def det3_def identity3_def mat_defs power2_eq_square [symmetric])

lemma rigid_t_1_to_2: "rigid t_1_to_2"
  by (simp add: rigid_def is_shape_def det3_def identity3_def t_1_to_2_def mat_defs)

lemma rigid_after_roty:
  assumes "rigid t_m" "s = 1 \<or> s = - 1"
  shows "rigid (matmul t_m (np_block [[0, 0, s], [0, 1, 0], [- s, 0, 0]] [[x], [y], [z]] [0, 0, 0, 1]))"
proof -
  from assms(1) have "is_shape 4 4 t_m" by (simp add: rigid_def)
  then obtain a0 a1 a2 a3 b0 b1 b2 b3 c0 c1 c2 c3 d0 d1 d2 d3 where
    m: "t_m = [[a0, a1, a2, a3], [b0, b1, b2, b3], [c0, c1, c2, c3], [d0, d1, d2, d3]]"
    by (rule shape44E)
  from assms(1) have h:
    "a0 * a0 + b0 * b0 + c0 * c0 = 1" "a1 * a1 + b1 * b1 + c1 * c1 = 1" "a2 * a2 + b2 * b2 + c2 * c2 = 1"
    "a0 * a1 + b0 * b1 + c0 * c1 = 0" "a0 * a2 + b0 * b2 + c0 * c2 = 0" "a1 * a2 + b1 * b2 + c1 * c2 = 0"
    "a0 * a0 + a1 * a1 + a2 * a2 = 1" "b0 * b0 + b1 * b1 + b2 * b2 = 1" "c0 * c0 + c1 * c1 + c2 * c2 = 1"
    "a0 * b0 + a1 * b1 + a2 * b2 = 0" "a0 * c0 + a1 * c1 + a2 * c2 = 0" "b0 * c0 + b1 * c1 + b2 * c2 = 0"
    "d0 = 0" "d1 = 0" "d2 = 0" "d3 = 1"
    and det: "a0 * (b1 * c2 - b2 * c1) - a1 * (b0 * c2 - b2 * c0) + a2 * (b0 * c1 - b1 * c0) = 1"
    unfolding m by (simp_all add: rigid_def det3_def identity3_def mat_defs)
  show ?thesis
    unfolding m using h det assms(2)
    by (auto simp add: rigid_def is_shape_def det3_def identity3_def mat_defs algebra_simps)
qed

lemma rigid_mounts:
  assumes "rigid t_m"
  shows "rigid (t_rightback t_m l w)" "rigid (t_rightfront t_m l w)"
    "rigid (t_leftfront t_m l w)" "rigid (t_leftback t_m l w)"
proof -
  have p: "(1::real) = 1 \<or> (1::real) = - 1" and n: "(- 1::real) = 1 \<or> (- 1::real) = - 1"
    by simp_all
  show "rigid (t_rightback t_m l w)"
    using rigid_after_roty [OF assms p, of "- l / 2" 0 "w / 2"]
    by (simp add: t_rightback_def roty_def)
  show "rigid (t_rightfront t_m l w)"
    using rigid_after_roty [OF assms p, of "l / 2" 0 "w / 2"]
    by (simp add: t_rightfront_def roty_def)
  show "rigid (t_leftfront t_m l w)"
    using rigid_after_roty [OF assms n, of "l / 2" 0 "- w / 2"]
    by (simp add: t_leftfront_def roty_def)
  show "rigid (t_leftback t_m l w)"
    using rigid_after_roty [OF assms n, of "- l / 2" 0 "- w / 2"]
    by (simp add: t_leftback_def roty_def)
qed

section \<open>The claims\<close>

text \<open>
  C3. An unreachable target is surfaced: whenever \<open>D\<close> lies outside \<open>[-1, 1]\<close>, the first
  square root of \<^verbatim>\<open>ikine\<close> raises \<^verbatim>\<open>ValueError\<close> and no angle triple is returned, for
  either branch flag. At \<open>x4 = y4 = z4 = 0\<close> and \<open>l1 = l2 = l3 = 1\<close>, \<open>D\<close> is \<open>-3/2\<close>.
\<close>

theorem ikine_unreachable_raises:
  "1 < \<bar>ikine_D x4 y4 z4 l1 l2 l3\<bar> \<Longrightarrow> ikine x4 y4 z4 l1 l2 l3 legs12 = Inl ValueError"
proof -
  assume h: "1 < \<bar>ikine_D x4 y4 z4 l1 l2 l3\<bar>"
  have nz: "2 * l2 * l3 \<noteq> 0"
  proof
    assume "2 * l2 * l3 = 0"
    then have "ikine_D x4 y4 z4 l1 l2 l3 = 0" by (simp add: ikine_D_def)
    with h show False by simp
  qed
  have "\<not> (ikine_D x4 y4 z4 l1 l2 l3)\<^sup>2 \<le> 1"
    using h by (simp add: abs_square_le_1)
  then have "1 - (ikine_D x4 y4 z4 l1 l2 l3)\<^sup>2 < 0" by simp
  with nz show ?thesis
    by (simp add: ikine_def py_sqrt_def Let_def)
qed

theorem ikine_unreachable_raises_witness:
  "ikine_D 0 0 0 1 1 1 = - 3 / 2 \<and> 1 < \<bar>ikine_D 0 0 0 1 1 1\<bar>
   \<and> ikine 0 0 0 1 1 1 True = Inl ValueError
   \<and> ikine 0 0 0 1 1 1 False = Inl ValueError"
  using ikine_unreachable_raises [of 0 0 0 1 1 1 True]
    ikine_unreachable_raises [of 0 0 0 1 1 1 False]
  by (simp add: ikine_D_def)

text \<open>
  C4. A target inside the hip-offset cylinder is surfaced: whenever
  \<open>x4\<^sup>2 + y4\<^sup>2 < l1\<^sup>2\<close>, \<^verbatim>\<open>ikine\<close> raises and returns no angles, whatever \<open>D\<close> is. The
  exception is \<^verbatim>\<open>ZeroDivisionError\<close> when \<open>2 l2 l3 = 0\<close> and \<^verbatim>\<open>ValueError\<close> otherwise; with
  \<open>D\<close> inside \<open>[-1, 1]\<close> it is the square root of the upper-leg angle that raises.
\<close>

theorem ikine_inside_hip_cylinder_raises:
  "x4\<^sup>2 + y4\<^sup>2 < l1\<^sup>2 \<Longrightarrow>
   ikine x4 y4 z4 l1 l2 l3 legs12 =
     Inl (if 2 * l2 * l3 = 0 then ZeroDivisionError else ValueError)"
  by (simp add: ikine_def py_sqrt_def Let_def)

theorem ikine_inside_hip_cylinder_raises_witness:
  "(0::real)\<^sup>2 + 0\<^sup>2 < 1\<^sup>2 \<and> \<bar>ikine_D 0 0 2 1 1 1\<bar> \<le> 1
   \<and> ikine 0 0 2 1 1 1 True = Inl ValueError"
  using ikine_inside_hip_cylinder_raises [of 0 0 1 2 1 1 True]
  by (simp add: ikine_D_def)

text \<open>
  C9. On the boundary \<open>x4\<^sup>2 + y4\<^sup>2 = l1\<^sup>2\<close>, with \<open>D\<close> defined and inside \<open>[-1, 1]\<close>,
  \<^verbatim>\<open>ikine\<close> raises nothing and returns the angle triple computed with the square root
  equal to zero.
\<close>

theorem ikine_boundary_returns:
  assumes "l2 * l3 \<noteq> 0" "\<bar>ikine_D x4 y4 z4 l1 l2 l3\<bar> \<le> 1" "x4\<^sup>2 + y4\<^sup>2 = l1\<^sup>2"
  shows "ikine x4 y4 z4 l1 l2 l3 legs12 =
    (let D = ikine_D x4 y4 z4 l1 l2 l3;
         q3 = atan2 (if legs12 then sqrt (1 - D\<^sup>2) else - sqrt (1 - D\<^sup>2)) D
     in Inr (atan2 y4 x4 + atan2 0 (- l1),
             atan2 z4 0 - atan2 (l3 * sin q3) (l2 + l3 * cos q3),
             q3))"
proof -
  have "(ikine_D x4 y4 z4 l1 l2 l3)\<^sup>2 \<le> 1"
    using assms(2) by (simp add: abs_square_le_1)
  moreover have "l1\<^sup>2 \<le> x4\<^sup>2 + y4\<^sup>2" "x4\<^sup>2 + y4\<^sup>2 - l1\<^sup>2 = 0"
    using assms(3) by simp_all
  ultimately show ?thesis
    using assms(1) by (simp add: ikine_returns Let_def)
qed

theorem ikine_boundary_returns_witness:
  "(1::real) * 1 \<noteq> 0 \<and> \<bar>ikine_D 1 0 2 1 1 1\<bar> \<le> 1 \<and> (1::real)\<^sup>2 + 0\<^sup>2 = 1\<^sup>2
   \<and> ikine 1 0 2 1 1 1 True = Inr (pi, pi / 2, 0)"
  using ikine_boundary_returns [of 1 1 1 0 2 1 True]
  by (simp add: ikine_D_def atan2_def)

text \<open>
  C6. With the identity as body pose, \<open>l = 2\<close> and \<open>w = 1\<close>, the translations of the
  right-back, right-front, left-front and left-back mount frames are \<open>(-1, 0, 1/2)\<close>,
  \<open>(1, 0, 1/2)\<close>, \<open>(1, 0, -1/2)\<close> and \<open>(-1, 0, -1/2)\<close>.
\<close>

theorem leg_mount_translations_identity:
  "translation (t_rightback identity4 2 1) = [- 1, 0, 1 / 2] \<and>
   translation (t_rightfront identity4 2 1) = [1, 0, 1 / 2] \<and>
   translation (t_leftfront identity4 2 1) = [1, 0, - 1 / 2] \<and>
   translation (t_leftback identity4 2 1) = [- 1, 0, - 1 / 2]"
  by (simp add: t_rightback_def t_rightfront_def t_leftfront_def t_leftback_def identity4_def
      mat_defs)

text \<open>
  C7. The forward-kinematics transform is the ordered product of the four joint
  transforms, in the left-to-right bracketing of the source and in any other; the fixed
  transform of joint 1 to 2 has the rotation rows \<open>(0, 0, -1)\<close>, \<open>(-1, 0, 0)\<close>,
  \<open>(0, 1, 0)\<close> and no translation; the hip transform has the translation
  \<open>(-l1 cos \<theta>1, -l1 sin \<theta>1, 0)\<close>.
\<close>

theorem t_0_to_4_chain:
  "t_0_to_4 theta1 theta2 theta3 l1 l2 l3 =
     matmul (t_0_to_1 theta1 l1)
       (matmul t_1_to_2 (matmul (t_2_to_3 theta2 l2) (t_3_to_4 theta3 l3)))
   \<and> t_0_to_4 theta1 theta2 theta3 l1 l2 l3 =
     matmul (matmul (matmul (t_0_to_1 theta1 l1) t_1_to_2) (t_2_to_3 theta2 l2))
       (t_3_to_4 theta3 l3)
   \<and> rotation t_1_to_2 = [[0, 0, - 1], [- 1, 0, 0], [0, 1, 0]]
   \<and> translation t_1_to_2 = [0, 0, 0]
   \<and> translation (t_0_to_1 theta1 l1) = [- l1 * cos theta1, - l1 * sin theta1, 0]"
  by (simp add: t_0_to_4_def t_0_to_1_def t_1_to_2_def t_2_to_3_def t_3_to_4_def mat_defs
      algebra_simps)

text \<open>
  C10. The result of \<^verbatim>\<open>get_leg_delta_coords\<close> depends on the right-back foot target
  only: two tuples of targets with the same first entry give the same result.
\<close>

theorem get_leg_delta_coords_ignores_other_feet:
  "fst p = fst p' \<Longrightarrow>
   get_leg_delta_coords ht_body p l w = get_leg_delta_coords ht_body p' l w"
  by (simp add: get_leg_delta_coords_def Let_def)

theorem get_leg_delta_coords_ignores_other_feet_witness:
  "fst ((1 :: real, 2 :: real, 3 :: real), (0 :: real, 0 :: real, 0 :: real),
        (0 :: real, 0 :: real, 0 :: real), (0 :: real, 0 :: real, 0 :: real))
     = fst ((1 :: real, 2 :: real, 3 :: real), (4 :: real, 5 :: real, 6 :: real),
        (7 :: real, 8 :: real, 9 :: real), (10 :: real, 11 :: real, 12 :: real)) \<and>
   get_leg_delta_coords identity4 ((1, 2, 3), (0, 0, 0), (0, 0, 0), (0, 0, 0)) 2 1
     = get_leg_delta_coords identity4 ((1, 2, 3), (4, 5, 6), (7, 8, 9), (10, 11, 12)) 2 1"
  using get_leg_delta_coords_ignores_other_feet
    [of "((1, 2, 3), (0, 0, 0), (0, 0, 0), (0, 0, 0))"
        "((1, 2, 3), (4, 5, 6), (7, 8, 9), (10, 11, 12))" identity4 2 1]
  by simp

text \<open>
  C2. \<^verbatim>\<open>get_leg_delta_coords\<close> is documented to return the foot position of each leg in
  that leg's frame. With the identity as body pose, \<open>l = 2\<close>, \<open>w = 1\<close> and four different
  targets, it returns one vector of four numbers: the right-back target in the
  right-back frame, followed by the homogeneous coordinate \<open>1\<close>.
\<close>

theorem get_leg_delta_coords_right_back_only:
  "get_leg_delta_coords identity4 ((0, 0, 0), (1, 1, 1), (2, 2, 2), (3, 3, 3)) 2 1
     = [1 / 2, 0, 1, 1]"
  by (simp add: get_leg_delta_coords_def ht_inverse_def t_rightback_def identity4_def
      mat_defs Let_def)

text \<open>
  C5. For a reachable target (\<open>D\<close> defined, \<open>|D| < 1\<close> and \<open>x4\<^sup>2 + y4\<^sup>2 \<ge> l1\<^sup>2\<close>),
  \<^verbatim>\<open>ikine\<close> returns with the flag set the knee angle \<open>atan2 (sqrt (1 - D\<^sup>2)) D\<close> and
  with the flag cleared \<open>atan2 (- sqrt (1 - D\<^sup>2)) D\<close>; the two knee angles differ, and
  forward kinematics on either returned triple gives back the foot point.
\<close>

theorem ikine_branches:
  assumes "l2 * l3 \<noteq> 0" "\<bar>ikine_D x4 y4 z4 l1 l2 l3\<bar> < 1" "l1\<^sup>2 \<le> x4\<^sup>2 + y4\<^sup>2"
  shows "\<exists>q1 q2 q1' q2'.
     ikine x4 y4 z4 l1 l2 l3 True =
       Inr (q1, q2, atan2 (sqrt (1 - (ikine_D x4 y4 z4 l1 l2 l3)\<^sup>2)) (ikine_D x4 y4 z4 l1 l2 l3))
   \<and> ikine x4 y4 z4 l1 l2 l3 False =
       Inr (q1', q2', atan2 (- sqrt (1 - (ikine_D x4 y4 z4 l1 l2 l3)\<^sup>2)) (ikine_D x4 y4 z4 l1 l2 l3))
   \<and> atan2 (sqrt (1 - (ikine_D x4 y4 z4 l1 l2 l3)\<^sup>2)) (ikine_D x4 y4 z4 l1 l2 l3)
       \<noteq> atan2 (- sqrt (1 - (ikine_D x4 y4 z4 l1 l2 l3)\<^sup>2)) (ikine_D x4 y4 z4 l1 l2 l3)
   \<and> translation (t_0_to_4 q1 q2
         (atan2 (sqrt (1 - (ikine_D x4 y4 z4 l1 l2 l3)\<^sup>2)) (ikine_D x4 y4 z4 l1 l2 l3)) l1 l2 l3)
       = [x4, y4, z4]
   \<and> translation (t_0_to_4 q1' q2'
         (atan2 (- sqrt (1 - (ikine_D x4 y4 z4 l1 l2 l3)\<^sup>2)) (ikine_D x4 y4 z4 l1 l2 l3)) l1 l2 l3)
       = [x4, y4, z4]"
proof -
  define D where "D = ikine_D x4 y4 z4 l1 l2 l3"
  define s where "s = sqrt (x4\<^sup>2 + y4\<^sup>2 - l1\<^sup>2)"
  define p where "p = atan2 (sqrt (1 - D\<^sup>2)) D"
  define n where "n = atan2 (- sqrt (1 - D\<^sup>2)) D"
  have D1: "D\<^sup>2 < 1"
    using assms(2) unfolding D_def by (simp add: abs_square_less_1)
  then have D1': "D\<^sup>2 \<le> 1" by simp
  have pos: "0 < sqrt (1 - D\<^sup>2)"
    using D1 by simp
  have "sin p = sqrt (1 - D\<^sup>2)"
    unfolding p_def by (rule atan2_unit_circle(2) [OF D1']) simp
  moreover have "sin n = - sqrt (1 - D\<^sup>2)"
    unfolding n_def by (rule atan2_unit_circle(2) [OF D1']) simp
  ultimately have "sin p \<noteq> sin n"
    using pos by simp
  then have ne: "p \<noteq> n" by auto
  have t: "ikine x4 y4 z4 l1 l2 l3 True =
      Inr (atan2 y4 x4 + atan2 s (- l1), atan2 z4 s - atan2 (l3 * sin p) (l2 + l3 * cos p), p)"
    using ikine_returns [of _ _ _ _ _ _ True, OF assms(1) D1' [unfolded D_def] assms(3)]
    unfolding D_def s_def p_def Let_def by simp
  have f: "ikine x4 y4 z4 l1 l2 l3 False =
      Inr (atan2 y4 x4 + atan2 s (- l1), atan2 z4 s - atan2 (l3 * sin n) (l2 + l3 * cos n), n)"
    using ikine_returns [of _ _ _ _ _ _ False, OF assms(1) D1' [unfolded D_def] assms(3)]
    unfolding D_def s_def n_def Let_def by simp
  show ?thesis
    using t f ne ikine_forward [OF t] ikine_forward [OF f]
    unfolding p_def n_def D_def by blast
qed

theorem ikine_branches_witness:
  "(1::real) * 1 \<noteq> 0 \<and> \<bar>ikine_D 1 1 1 1 1 1\<bar> < 1 \<and> (1::real)\<^sup>2 \<le> 1\<^sup>2 + 1\<^sup>2 \<and>
   (\<exists>q1 q2 q1' q2'.
      ikine 1 1 1 1 1 1 True = Inr (q1, q2, pi / 2)
    \<and> ikine 1 1 1 1 1 1 False = Inr (q1', q2', - (pi / 2))
    \<and> translation (t_0_to_4 q1 q2 (pi / 2) 1 1 1) = [1, 1, 1]
    \<and> translation (t_0_to_4 q1' q2' (- (pi / 2)) 1 1 1) = [1, 1, 1])"
proof -
  have D: "ikine_D 1 1 1 1 1 1 = 0" by (simp add: ikine_D_def)
  have a: "atan2 1 0 = pi / 2" "atan2 (- 1) 0 = - (pi / 2)" by (simp_all add: atan2_def)
  show ?thesis
    using ikine_branches [of 1 1 1 1 1 1] unfolding D by (simp add: a)
qed

text \<open>
  C8. Every joint transform, for any angle and link length, is a rigid transform: four by
  four, rotation block orthonormal (by rows and by columns) with determinant one, last
  row \<open>(0, 0, 0, 1)\<close>. The four leg-mount frames are rigid whenever the body pose is.
\<close>

theorem joint_and_mount_transforms_rigid:
  "rigid (t_0_to_1 theta1 l1) \<and> rigid t_1_to_2 \<and> rigid (t_2_to_3 theta2 l2)
   \<and> rigid (t_3_to_4 theta3 l3)
   \<and> (rigid t_m \<longrightarrow>
        rigid (t_rightback t_m l w) \<and> rigid (t_rightfront t_m l w)
        \<and> rigid (t_leftfront t_m l w) \<and> rigid (t_leftback t_m l w))"
  using rigid_mounts [of t_m l w]
  by (simp add: t_0_to_1_def t_2_to_3_def t_3_to_4_def rigid_joint rigid_t_1_to_2)

theorem joint_and_mount_transforms_rigid_witness:
  "rigid [[0, - 1, 0, 5], [1, 0, 0, 6], [0, 0, 1, 7], [0, 0, 0, 1]]
   \<and> rigid (t_rightback [[0, - 1, 0, 5], [1, 0, 0, 6], [0, 0, 1, 7], [0, 0, 0, 1]] 2 1)
   \<and> rigid (t_rightfront [[0, - 1, 0, 5], [1, 0, 0, 6], [0, 0, 1, 7], [0, 0, 0, 1]] 2 1)
   \<and> rigid (t_leftfront [[0, - 1, 0, 5], [1, 0, 0, 6], [0, 0, 1, 7], [0, 0, 0, 1]] 2 1)
   \<and> rigid (t_leftback [[0, - 1, 0, 5], [1, 0, 0, 6], [0, 0, 1, 7], [0, 0, 0, 1]] 2 1)
   \<and> rigid (t_0_to_1 (pi / 3) 1) \<and> rigid t_1_to_2 \<and> rigid (t_2_to_3 (pi / 3) 1)
   \<and> rigid (t_3_to_4 (pi / 3) 1)"
proof -
  have r: "rigid [[0, - 1, 0, 5], [1, 0, 0, 6], [0, 0, 1, 7], [0, 0, 0, 1]]"
    by (simp add: rigid_def is_shape_def det3_def identity3_def mat_defs)
  show ?thesis
    using r joint_and_mount_transforms_rigid
      [of "pi / 3" 1 "pi / 3" 1 "pi / 3" 1 "[[0, - 1, 0, 5], [1, 0, 0, 6], [0, 0, 1, 7], [0, 0, 0, 1]]" 2 1]
    by blast
qed

text \<open>
  C1, as the code has it. The round trip from joint angles through \<^verbatim>\<open>t_0_to_4\<close> and back
  through \<^verbatim>\<open>ikine\<close> does not hold for every triple of angles: with
  \<open>\<theta> = (0, \<pi>/2, \<pi>/2)\<close> and unit links the foot is at \<open>(-1, 1, 1)\<close>, and \<^verbatim>\<open>ikine\<close>
  returns \<open>(3\<pi>/2, 0, \<pi>/2)\<close> with the flag set and \<open>(3\<pi>/2, \<pi>/2, -\<pi>/2)\<close> with the
  flag cleared: other solutions for the same foot point.
\<close>

theorem ikine_round_trip_counterexample:
  "translation (t_0_to_4 0 (pi / 2) (pi / 2) 1 1 1) = [- 1, 1, 1]
   \<and> ikine (- 1) 1 1 1 1 1 True = Inr (3 * pi / 2, 0, pi / 2)
   \<and> ikine (- 1) 1 1 1 1 1 False = Inr (3 * pi / 2, pi / 2, - (pi / 2))
   \<and> ikine (- 1) 1 1 1 1 1 True \<noteq> Inr (0, pi / 2, pi / 2)
   \<and> ikine (- 1) 1 1 1 1 1 False \<noteq> Inr (0, pi / 2, pi / 2)
   \<and> 1 / 10 ^ 9 < \<bar>pi / 2 - 0\<bar>"
proof -
  have tr: "translation (t_0_to_4 0 (pi / 2) (pi / 2) 1 1 1) = [- 1, 1, 1]"
    by (simp add: t_0_to_4_translation)
  have D: "ikine_D (- 1) 1 1 1 1 1 = 0"
    by (simp add: ikine_D_def)
  have a: "atan2 1 0 = pi / 2" "atan2 (- 1) 0 = - (pi / 2)" "atan2 1 1 = pi / 4"
    "atan2 (- 1) 1 = - (pi / 4)" "atan2 1 (- 1) = 3 * pi / 4"
    by (simp_all add: atan2_def arctan_minus arctan_one)
  have t: "ikine (- 1) 1 1 1 1 1 True = Inr (3 * pi / 2, 0, pi / 2)"
    by (simp add: ikine_def py_sqrt_def D a Let_def)
  have f: "ikine (- 1) 1 1 1 1 1 False = Inr (3 * pi / 2, pi / 2, - (pi / 2))"
    by (simp add: ikine_def py_sqrt_def D a Let_def)
  have tol: "1 / 10 ^ 9 < \<bar>pi / 2 - 0\<bar>"
    using pi_ge_two by simp
  have ne: "3 * pi / 2 \<noteq> 0"
    using pi_gt_zero by simp
  show ?thesis
    using tr t f tol ne by simp
qed

text \<open>
  C1, amended. For positive link lengths, hip and upper-leg angles in \<open>[-\<pi>/2, \<pi>/2]\<close>,
  a knee angle in \<open>[0, \<pi>]\<close> with the flag set or in \<open>(-\<pi>, 0]\<close> with the flag cleared,
  a foot in front of the hip axis (\<open>l2 cos \<theta>2 + l3 cos (\<theta>2 + \<theta>3) > 0\<close>) and below the
  mount frame (its \<open>y\<close> coordinate negative), \<^verbatim>\<open>ikine\<close> applied to the translation of
  \<^verbatim>\<open>t_0_to_4\<close> returns the original triple, exactly.
\<close>

theorem ikine_t_0_to_4_round_trip:
  assumes l: "0 < l1" "0 < l2" "0 < l3"
    and r1: "- (pi / 2) \<le> q1" "q1 \<le> pi / 2"
    and r2: "- (pi / 2) \<le> q2" "q2 \<le> pi / 2"
    and r3: "if legs12 then 0 \<le> q3 \<and> q3 \<le> pi else - pi < q3 \<and> q3 \<le> 0"
    and front: "0 < l2 * cos q2 + l3 * cos (q2 + q3)"
    and below: "translation (t_0_to_4 q1 q2 q3 l1 l2 l3) ! 1 < 0"
  shows "ikine (translation (t_0_to_4 q1 q2 q3 l1 l2 l3) ! 0)
               (translation (t_0_to_4 q1 q2 q3 l1 l2 l3) ! 1)
               (translation (t_0_to_4 q1 q2 q3 l1 l2 l3) ! 2) l1 l2 l3 legs12
         = Inr (q1, q2, q3)"
proof -
  define a where "a = l2 * cos q2 + l3 * cos (q2 + q3)"
  define b where "b = l2 * sin q2 + l3 * sin (q2 + q3)"
  define x where "x = a * sin q1 - l1 * cos q1"
  define y where "y = - a * cos q1 - l1 * sin q1"
  have tr: "translation (t_0_to_4 q1 q2 q3 l1 l2 l3) = [x, y, b]"
    unfolding t_0_to_4_translation x_def y_def a_def b_def by simp
  have apos: "0 < a" using front unfolding a_def .
  have yneg: "y < 0" using below unfolding tr by simp
  have nz: "l2 * l3 \<noteq> 0" using l by simp
  have xy: "x\<^sup>2 + y\<^sup>2 = a\<^sup>2 + l1\<^sup>2"
    unfolding x_def y_def by (rule foot_radius)
  have ab: "a\<^sup>2 + b\<^sup>2 = l2\<^sup>2 + l3\<^sup>2 + 2 * l2 * l3 * cos q3"
    unfolding a_def b_def by (rule cosine_law)
  have "x\<^sup>2 + y\<^sup>2 + b\<^sup>2 - l1\<^sup>2 - l2\<^sup>2 - l3\<^sup>2 = a\<^sup>2 + b\<^sup>2 - l2\<^sup>2 - l3\<^sup>2"
    unfolding xy by simp
  also have "\<dots> = 2 * l2 * l3 * cos q3"
    unfolding ab by simp
  finally have "ikine_D x y b l1 l2 l3 = (2 * l2 * l3 * cos q3) / (2 * l2 * l3)"
    unfolding ikine_D_def by (rule arg_cong)
  then have D: "ikine_D x y b l1 l2 l3 = cos q3"
    using nz by simp
  have D1: "(ikine_D x y b l1 l2 l3)\<^sup>2 \<le> 1"
    unfolding D by (simp add: abs_square_le_1)
  have rad: "l1\<^sup>2 \<le> x\<^sup>2 + y\<^sup>2"
    unfolding xy by simp
  have s: "sqrt (x\<^sup>2 + y\<^sup>2 - l1\<^sup>2) = a"
    unfolding xy using apos by simp
  have k: "atan2 (if legs12 then sqrt (1 - (cos q3)\<^sup>2) else - sqrt (1 - (cos q3)\<^sup>2)) (cos q3) = q3"
    using r3 by (rule knee_recovered)
  have u: "atan2 b a - atan2 (l3 * sin q3) (l2 + l3 * cos q3) = q2"
    unfolding a_def b_def using r2 front by (rule upper_leg_recovered)
  have h: "atan2 y x + atan2 a (- l1) = q1"
    unfolding x_def y_def using l(1) apos r1 yneg [unfolded y_def] by (rule hip_recovered)
  have "ikine x y b l1 l2 l3 legs12 = Inr (q1, q2, q3)"
    unfolding ikine_returns [of _ _ _ _ _ _ legs12, OF nz D1 rad] Let_def D s k u h ..
  then show ?thesis
    unfolding tr by simp
qed

theorem ikine_t_0_to_4_round_trip_witness:
  "translation (t_0_to_4 0 0 (pi / 2) 1 1 1) = [- 1, - 1, 1]
   \<and> ikine (- 1) (- 1) 1 1 1 1 True = Inr (0, 0, pi / 2)"
proof -
  have tr: "translation (t_0_to_4 0 0 (pi / 2) 1 1 1) = [- 1, - 1, 1]"
    by (simp add: t_0_to_4_translation)
  have r3: "if True then 0 \<le> pi / 2 \<and> pi / 2 \<le> pi else - pi < pi / 2 \<and> pi / 2 \<le> 0"
    using pi_gt_zero by simp
  have front: "(0::real) < 1 * cos 0 + 1 * cos (0 + pi / 2)"
    by simp
  have below: "translation (t_0_to_4 0 0 (pi / 2) 1 1 1) ! 1 < 0"
    unfolding tr by simp
  have r0: "- (pi / 2) \<le> 0" "(0::real) \<le> pi / 2"
    using pi_gt_zero by simp_all
  have "ikine (translation (t_0_to_4 0 0 (pi / 2) 1 1 1) ! 0)
               (translation (t_0_to_4 0 0 (pi / 2) 1 1 1) ! 1)
               (translation (t_0_to_4 0 0 (pi / 2) 1 1 1) ! 2) 1 1 1 True
         = Inr (0, 0, pi / 2)"
    by (rule ikine_t_0_to_4_round_trip [OF _ _ _ r0 r0 r3 front below]) simp_all
  then show ?thesis
    unfolding tr by simp
qed

end
